theory Spec2Isabelle
  imports Complex_Main "HOL-Library.Sublist"
begin

section \<open>Data model of \<open>src/app/actions.ts\<close>\<close>

text \<open>
  Strings are byte lists (the UTF-8 encoding of the JavaScript string). Every character the
  code inspects by itself (URL delimiters, identifier characters, digits, signs) is a single
  byte in that encoding, and a byte of a multi-byte character never equals one of them; the
  white space \<open>parseInt\<close> skips is matched by its encoding, one to three bytes.
\<close>

text \<open>
  The numbers the code computes with: the result of \<open>parseInt\<close>, of \<open>|| 0\<close> and of
  a subtraction of such results. They are IEEE doubles whose value is an integer, an infinity
  or \<open>NaN\<close>. \<open>Num n\<close> stands for the double of value \<open>n\<close>; the functions below
  build it only for an \<open>n\<close> that a double holds exactly. The negative zero is identified
  with zero: the code reads a \<open>parseInt\<close> result only under \<open>|| 0\<close>, which maps both
  to zero.
\<close>

datatype number = NaN | Num int | PosInfinity | NegInfinity

text \<open>A value of JavaScript where a type \<open>'a\<close> is declared: it may be \<open>undefined\<close>
  or \<open>null\<close> as well.\<close>

datatype 'a nullable = Undefined | Null | Value 'a

text \<open>
  \<open>type SubtitleBlock = { text: string; offset: number; duration: number }\<close>.
  The field \<open>text\<close> is written \<open>text'\<close>. The type of the text is a parameter:
  the normalizer produces blocks whose text is a string; \<open>translateChunk\<close> copies
  into \<open>text\<close> whatever truthy value the model's JSON carries there, which at run time
  need not be a string.
\<close>

record 't SubtitleBlock =
  text' :: 't
  offset :: number
  duration :: number

text \<open>
  A value produced by \<open>JSON.parse\<close>. An object is the list of its entries, whose keys
  are distinct once parsed.
\<close>

datatype json =
    JNull
  | JBool bool
  | JNum real
  | JStr string
  | JArr "json list"
  | JObj "(string \<times> json) list"

text \<open>What a \<open>throw\<close> or a rejected promise carries, as far as
  \<open>error instanceof Error ? error.message : ...\<close> can tell.\<close>

datatype thrown = Error string | NonError

text \<open>The value \<open>processVideo\<close> resolves to:
  \<open>{ success: true, data }\<close> or \<open>{ success: false, error }\<close>.\<close>

datatype 'a result = Success 'a | Failure string

text \<open>How an async function ends: it resolves to a value, or it rejects.\<close>

datatype 'a completion = Returned 'a | Raised thrown

text \<open>
  A raw caption segment of the caption library. Each field is \<open>None\<close> when the segment
  has no such key (\<open>'start_ms' in segment\<close> is false) and \<open>Some v\<close> when it has the
  key, with the value \<open>v\<close> that the key holds: the declared string or object, or
  \<open>undefined\<close> or \<open>null\<close>. The text of a snippet is what reading \<open>.text\<close> gives:
  \<open>undefined\<close> also when the snippet has no such key.
\<close>

datatype snippet = Snippet (snippet_text: "string nullable")

record RawSegment =
  start_ms :: "string nullable option"
  end_ms :: "string nullable option"
  snippet :: "snippet nullable option"

text \<open>
  The outcome of lines 20-30 of the worker (\<open>Innertube.create\<close>, \<open>getInfo\<close>,
  \<open>getTranscript\<close> and the optional chain down to \<open>initial_segments\<close>): one of the
  calls rejects, the chain is nullish, or there is an array of segments.
\<close>

datatype caption_outcome =
    FetchThrows thrown
  | NoTranscript
  | Segments "RawSegment list"

text \<open>
  The outcome of lines 125-141 of \<open>translateChunk\<close> (the request, the response text,
  the clean-up of the text and \<open>JSON.parse\<close>): a value was parsed, or one of the steps
  threw.
\<close>

datatype attempt = Throws thrown | Parsed json

text \<open>
  The external collaborators. The caption source answers the \<open>n\<close>-th fetch for a video
  identifier; the translation model answers the \<open>n\<close>-th request, whose prompt carries
  the chunk.
\<close>

record env =
  captionSource :: "string \<Rightarrow> nat \<Rightarrow> caption_outcome"
  translator :: "nat \<Rightarrow> string SubtitleBlock list \<Rightarrow> attempt"

text \<open>
  The state the code acts on: the entries of the result cache (value and time of insertion,
  in seconds), the number of caption fetches and of model requests made so far, and the
  delays (in milliseconds) awaited so far, in order.
\<close>

record world =
  cache :: "string \<rightharpoonup> (json SubtitleBlock list \<times> nat)"
  fetches :: nat
  calls :: nat
  sleeps :: "nat list"

section \<open>Numbers\<close>

text \<open>The number of binary digits of a positive integer.\<close>

function bit_length :: "int \<Rightarrow> nat" where
  "bit_length n = (if n \<le> 0 then 0 else Suc (bit_length (n div 2)))"
  by pat_completeness auto
termination
  by (relation "measure nat") auto

declare bit_length.simps [simp del]

text \<open>
  The double nearest to an integer, ties to the even significand: exact below \<open>2^53\<close>;
  above, the 53 leading binary digits are kept and the rest rounds them; a magnitude that
  rounds to \<open>2^1024\<close> or more is an infinity.
\<close>

definition to_double :: "int \<Rightarrow> number" where
  "to_double n =
     (let a = \<bar>n\<bar> in
      if a < 2 ^ 53 then Num n
      else
        (let k = bit_length a - 53;
             q = a div 2 ^ k;
             r = a mod 2 ^ k;
             half = 2 ^ (k - 1);
             q' = (if half < r \<or> (r = half \<and> odd q) then q + 1 else q);
             v = q' * 2 ^ k
         in if 2 ^ 1024 \<le> v then (if n < 0 then NegInfinity else PosInfinity)
            else Num (if n < 0 then - v else v)))"

text \<open>The subtraction of two numbers: the exact difference, rounded to a double.\<close>

fun subtract :: "number \<Rightarrow> number \<Rightarrow> number" where
  "subtract NaN y = NaN"
| "subtract x NaN = NaN"
| "subtract (Num a) (Num b) = to_double (a - b)"
| "subtract (Num a) PosInfinity = NegInfinity"
| "subtract (Num a) NegInfinity = PosInfinity"
| "subtract PosInfinity PosInfinity = NaN"
| "subtract PosInfinity y = PosInfinity"
| "subtract NegInfinity NegInfinity = NaN"
| "subtract NegInfinity y = NegInfinity"

text \<open>\<open>x || 0\<close> for a number \<open>x\<close>: \<open>NaN\<close> and zero are falsy.\<close>

definition or_zero :: "number \<Rightarrow> number" where
  "or_zero x = (case x of NaN \<Rightarrow> Num 0 | Num n \<Rightarrow> if n = 0 then Num 0 else Num n | _ \<Rightarrow> x)"

section \<open>\<open>parseInt\<close>\<close>

text \<open>
  The white space and line terminators of JavaScript, in UTF-8: U+0009 to U+000D, U+0020,
  U+00A0, U+1680, U+2000 to U+200A, U+2028, U+2029, U+202F, U+205F, U+3000, U+FEFF.
\<close>

definition white_space :: "string list" where
  "white_space =
     [[CHR 0x09], [CHR 0x0A], [CHR 0x0B], [CHR 0x0C], [CHR 0x0D], [CHR 0x20],
      [CHR 0xC2, CHR 0xA0],
      [CHR 0xE1, CHR 0x9A, CHR 0x80],
      [CHR 0xE2, CHR 0x80, CHR 0x80], [CHR 0xE2, CHR 0x80, CHR 0x81],
      [CHR 0xE2, CHR 0x80, CHR 0x82], [CHR 0xE2, CHR 0x80, CHR 0x83],
      [CHR 0xE2, CHR 0x80, CHR 0x84], [CHR 0xE2, CHR 0x80, CHR 0x85],
      [CHR 0xE2, CHR 0x80, CHR 0x86], [CHR 0xE2, CHR 0x80, CHR 0x87],
      [CHR 0xE2, CHR 0x80, CHR 0x88], [CHR 0xE2, CHR 0x80, CHR 0x89],
      [CHR 0xE2, CHR 0x80, CHR 0x8A],
      [CHR 0xE2, CHR 0x80, CHR 0xA8], [CHR 0xE2, CHR 0x80, CHR 0xA9],
      [CHR 0xE2, CHR 0x80, CHR 0xAF],
      [CHR 0xE2, CHR 0x81, CHR 0x9F],
      [CHR 0xE3, CHR 0x80, CHR 0x80],
      [CHR 0xEF, CHR 0xBB, CHR 0xBF]]"

text \<open>The string behind the first of the given encodings that it starts with.\<close>

fun strip_one :: "string list \<Rightarrow> string \<Rightarrow> string option" where
  "strip_one [] s = None"
| "strip_one (sp # sps) s =
     (if prefix sp s then Some (drop (length sp) s) else strip_one sps s)"

text \<open>The string behind its leading white space.\<close>

function skip_space :: "string \<Rightarrow> string" where
  "skip_space s = (case strip_one white_space s of None \<Rightarrow> s | Some rest \<Rightarrow> skip_space rest)"
  by pat_completeness auto
termination
proof (relation "measure length")
  show "wf (measure length)"
    by simp
next
  fix s rest :: string
  assume stripped: "strip_one white_space s = Some rest"
  have shorter: "length rest < length s"
    if "\<forall>sp\<in>set sps. sp \<noteq> []" and "strip_one sps s = Some rest" for sps
    using that by (induction sps) (auto split: if_splits simp: prefix_def)
  have "\<forall>sp\<in>set white_space. sp \<noteq> []"
    by (simp add: white_space_def)
  from shorter[OF this stripped] show "(rest, s) \<in> measure length"
    by simp
qed

declare skip_space.simps [simp del]

definition digit_value :: "char \<Rightarrow> nat" where
  "digit_value c =
     (let n = (of_char c :: nat) in
      if 48 \<le> n \<and> n \<le> 57 then n - 48
      else if 97 \<le> n \<and> n \<le> 122 then n - 87
      else if 65 \<le> n \<and> n \<le> 90 then n - 55
      else 36)"

definition is_digit :: "nat \<Rightarrow> char \<Rightarrow> bool" where
  "is_digit R c = (digit_value c < R)"

text \<open>
  \<open>parseInt(v)\<close> with no radix: the argument is converted to a string (\<open>undefined\<close>
  and \<open>null\<close> become the strings "undefined" and "null"), leading white space is skipped,
  a sign is read, a \<open>0x\<close> prefix selects radix 16, and the longest run of digits is the
  value, as the double nearest to it; no digit gives \<open>NaN\<close>. (Past 20 significant decimal
  digits the standard lets an implementation approximate the value; the nearest double is what
  the number conversion gives.)
\<close>

definition parseInt :: "string nullable \<Rightarrow> number" where
  "parseInt v =
     (let inputString = (case v of Undefined \<Rightarrow> ''undefined'' | Null \<Rightarrow> ''null'' | Value s \<Rightarrow> s);
          S = skip_space inputString;
          neg = (case S of [] \<Rightarrow> False | c # _ \<Rightarrow> c = CHR ''-'');
          S1 = (case S of [] \<Rightarrow> [] | c # cs \<Rightarrow> if c = CHR ''+'' \<or> c = CHR ''-'' then cs else S);
          hex = (prefix ''0x'' S1 \<or> prefix ''0X'' S1);
          R = (if hex then 16 else 10);
          S2 = (if hex then drop 2 S1 else S1);
          Z = takeWhile (is_digit R) S2
      in if Z = [] then NaN
         else to_double ((if neg then - 1 else 1) *
                         foldl (\<lambda>a c. a * int R + int (digit_value c)) 0 Z))"

section \<open>The segment normalizer (worker, lines 39-47)\<close>

text \<open>Reading a field of a segment: \<open>undefined\<close> when the segment has no such key.\<close>

definition read_field :: "'a nullable option \<Rightarrow> 'a nullable" where
  "read_field f = (case f of None \<Rightarrow> Undefined | Some v \<Rightarrow> v)"

text \<open>\<open>segment.snippet?.text\<close>: \<open>undefined\<close> when the snippet is \<open>undefined\<close> or
  \<open>null\<close>.\<close>

definition optional_text :: "snippet nullable \<Rightarrow> string nullable" where
  "optional_text sn = (case sn of Value (Snippet t) \<Rightarrow> t | _ \<Rightarrow> Undefined)"

text \<open>\<open>'start_ms' in segment && 'snippet' in segment && segment.snippet?.text !== undefined\<close>\<close>

definition keep_segment :: "RawSegment \<Rightarrow> bool" where
  "keep_segment segment =
     (start_ms segment \<noteq> None \<and> snippet segment \<noteq> None \<and>
      optional_text (read_field (snippet segment)) \<noteq> Undefined)"

text \<open>\<open>text || ''\<close> for a text that is a string, \<open>undefined\<close> or \<open>null\<close>.\<close>

definition text_or_empty :: "string nullable \<Rightarrow> string" where
  "text_or_empty t = (case t of Value s \<Rightarrow> if s = [] then [] else s | _ \<Rightarrow> [])"

text \<open>
  The body of \<open>.map\<close>. Reading \<open>segment.snippet.text\<close> of a segment whose snippet is
  \<open>undefined\<close> or \<open>null\<close> throws a TypeError: that is \<open>None\<close>.
\<close>

definition to_block :: "RawSegment \<Rightarrow> string SubtitleBlock option" where
  "to_block segment =
     (case read_field (snippet segment) of
        Value (Snippet t) \<Rightarrow>
          Some \<lparr> text' = text_or_empty t,
                 offset = or_zero (parseInt (read_field (start_ms segment))),
                 duration = subtract (or_zero (parseInt (read_field (end_ms segment))))
                                     (or_zero (parseInt (read_field (start_ms segment)))) \<rparr>
      | _ \<Rightarrow> None)"

text \<open>\<open>.map\<close> over a list, where the body may throw: the first throw ends it.\<close>

fun map_throwing :: "('a \<Rightarrow> 'b option) \<Rightarrow> 'a list \<Rightarrow> 'b list option" where
  "map_throwing f [] = Some []"
| "map_throwing f (x # xs) =
     (case f x of
        None \<Rightarrow> None
      | Some y \<Rightarrow> (case map_throwing f xs of None \<Rightarrow> None | Some ys \<Rightarrow> Some (y # ys)))"

definition normalize_segments :: "RawSegment list \<Rightarrow> string SubtitleBlock list option" where
  "normalize_segments segments = map_throwing to_block (filter keep_segment segments)"

section \<open>The translator (\<open>translateChunk\<close>, lines 101-172)\<close>

definition MAX_RETRIES :: nat where
  "MAX_RETRIES = 3"

text \<open>The marker of line 169, \<open>[L\<close> U+1ED7 \<open>i d\<close> U+1ECB \<open>ch]\<close> and a space, as bytes.\<close>

definition failureMarker :: string where
  "failureMarker =
     ''[L'' @ [CHR 0xE1, CHR 0xBB, CHR 0x97] @ ''i d'' @ [CHR 0xE1, CHR 0xBB, CHR 0x8B] @ ''ch] ''"

text \<open>\<open>parsed[idx]\<close>: \<open>undefined\<close> (\<open>None\<close>) past the end of the array.\<close>

definition element_at :: "json list \<Rightarrow> nat \<Rightarrow> json option" where
  "element_at parsed idx = (if idx < length parsed then Some (parsed ! idx) else None)"

text \<open>
  \<open>translated?.text\<close>: \<open>undefined\<close> when \<open>translated\<close> is \<open>undefined\<close> or
  \<open>null\<close>; otherwise the property \<open>text\<close>, which only an object can have.
\<close>

fun text_of :: "json option \<Rightarrow> json option" where
  "text_of None = None"
| "text_of (Some JNull) = None"
| "text_of (Some (JObj entries)) = map_of entries ''text''"
| "text_of (Some _) = None"

text \<open>Truthiness of a JSON value.\<close>

fun truthy :: "json \<Rightarrow> bool" where
  "truthy JNull = False"
| "truthy (JBool b) = b"
| "truthy (JNum x) = (x \<noteq> 0)"
| "truthy (JStr s) = (s \<noteq> [])"
| "truthy (JArr _) = True"
| "truthy (JObj _) = True"

text \<open>\<open>translated?.text || orig.text\<close>\<close>

definition text_or_original :: "json option \<Rightarrow> string \<Rightarrow> json" where
  "text_or_original t orig_text =
     (case t of None \<Rightarrow> JStr orig_text | Some v \<Rightarrow> if truthy v then v else JStr orig_text)"

text \<open>Lines 149-156: \<open>chunk.map((orig, idx) => ...)\<close>.\<close>

definition reconcile :: "string SubtitleBlock list \<Rightarrow> json list \<Rightarrow> json SubtitleBlock list" where
  "reconcile chunk parsed =
     map (\<lambda>(idx, orig).
            \<lparr> text' = text_or_original (text_of (element_at parsed idx)) (text' orig),
              offset = offset orig,
              duration = duration orig \<rparr>)
         (List.enumerate 0 chunk)"

text \<open>Lines 167-170: the original items, the text behind the failure marker.\<close>

definition mark_failed :: "string SubtitleBlock list \<Rightarrow> json SubtitleBlock list" where
  "mark_failed chunk =
     map (\<lambda>item. \<lparr> text' = JStr (failureMarker @ text' item),
                    offset = offset item,
                    duration = duration item \<rparr>) chunk"

text \<open>The \<open>try\<close> block of one attempt: \<open>Inl\<close> is what the \<open>catch\<close> receives.\<close>

definition try_translate ::
  "attempt \<Rightarrow> string SubtitleBlock list \<Rightarrow> thrown + json SubtitleBlock list" where
  "try_translate a chunk =
     (case a of
        Throws e \<Rightarrow> Inl e
      | Parsed parsed \<Rightarrow>
          (case parsed of
             JArr ps \<Rightarrow>
               if length ps = 0 then Inl (Error ''Invalid response structure'')
               else Inr (reconcile chunk ps)
           | _ \<Rightarrow> Inl (Error ''Invalid response structure'')))"

function translateChunk ::
  "env \<Rightarrow> string SubtitleBlock list \<Rightarrow> nat \<Rightarrow> world \<Rightarrow> json SubtitleBlock list \<times> world" where
  "translateChunk e chunk retryCount w =
     (let w1 = w\<lparr>calls := Suc (calls w)\<rparr> in
      case try_translate (translator e (calls w) chunk) chunk of
        Inr res \<Rightarrow> (res, w1)
      | Inl err \<Rightarrow>
          if retryCount < MAX_RETRIES
          then translateChunk e chunk (retryCount + 1)
                 (w1\<lparr>sleeps := sleeps w1 @ [1000 * (retryCount + 1)]\<rparr>)
          else (mark_failed chunk, w1))"
  by pat_completeness auto
termination
  by (relation "measure (\<lambda>(e, chunk, retryCount, w). MAX_RETRIES - retryCount)") auto

declare translateChunk.simps [simp del]

section \<open>The chunker and the worker (lines 16-63)\<close>

definition chunkSize :: nat where
  "chunkSize = 50"

text \<open>\<open>xs.slice(b, e)\<close> for \<open>0 \<le> b \<le> e\<close>.\<close>

definition slice :: "'a list \<Rightarrow> nat \<Rightarrow> nat \<Rightarrow> 'a list" where
  "slice xs b e = take (e - b) (drop b xs)"

text \<open>
  The loop of lines 55-60 with the translation left out: the chunks it cuts, in the order it
  cuts them, for a chunk size \<open>N\<close>. With \<open>N = 0\<close> the loop never ends: the result is
  \<open>None\<close>.
\<close>

partial_function (option) chunk_loop ::
  "nat \<Rightarrow> 'a list \<Rightarrow> nat \<Rightarrow> 'a list list \<Rightarrow> 'a list list option" where
  "chunk_loop N transcript i chunks =
     (if i < length transcript
      then chunk_loop N transcript (i + N) (chunks @ [slice transcript i (i + N)])
      else Some chunks)"

declare chunk_loop.simps [code]

text \<open>The loop of lines 55-60 as the worker runs it.\<close>

function translate_loop ::
  "env \<Rightarrow> string SubtitleBlock list \<Rightarrow> nat \<Rightarrow> json SubtitleBlock list \<Rightarrow> world
     \<Rightarrow> json SubtitleBlock list \<times> world" where
  "translate_loop e transcript i translatedSubs w =
     (if i < length transcript
      then (case translateChunk e (slice transcript i (i + chunkSize)) 0 w of
              (translated, w') \<Rightarrow>
                translate_loop e transcript (i + chunkSize) (translatedSubs @ translated) w')
      else (translatedSubs, w))"
  by pat_completeness auto
termination
  by (relation "measure (\<lambda>(e, transcript, i, translatedSubs, w). length transcript - i)")
     (auto simp: chunkSize_def)

declare translate_loop.simps [simp del]

definition generateTranscriptWorker ::
  "env \<Rightarrow> string \<Rightarrow> world \<Rightarrow> (thrown + json SubtitleBlock list) \<times> world" where
  "generateTranscriptWorker e videoId w =
     (let w1 = w\<lparr>fetches := Suc (fetches w)\<rparr> in
      case captionSource e videoId (fetches w) of
        FetchThrows err \<Rightarrow> (Inl err, w1)
      | NoTranscript \<Rightarrow>
          (Inl (Error ''No transcript found. The video may not have captions enabled.''), w1)
      | Segments segments \<Rightarrow>
          if length segments = 0 then (Inl (Error ''No transcript segments found.''), w1)
          else (case normalize_segments segments of
                  None \<Rightarrow> (Inl (Error ''TypeError''), w1)
                | Some transcript \<Rightarrow>
                    (case translate_loop e transcript 0 [] w1 of
                       (translatedSubs, w2) \<Rightarrow> (Inr translatedSubs, w2))))"

section \<open>The result cache and \<open>processVideo\<close> (lines 66-99)\<close>

text \<open>\<open>revalidate: 86400\<close>, in seconds.\<close>

definition revalidate :: nat where
  "revalidate = 86400"

text \<open>
  Modelled from the spec: \<open>unstable_cache\<close> of \<open>next/cache\<close>, which the repository
  imports and whose code is not among its sources. Section 4.5 of the specification gives its
  contract: \<open>get(key) -> Timeline | miss\<close>, \<open>set(key, Timeline)\<close>, entries expire
  after a fixed time to live measured from insertion, the expiry checked at \<open>get\<close>; and
  section 4.4: on a hit the cached timeline is returned with no fetch and no translation, on a
  miss the worker runs and its timeline is stored under the identifier. A worker that throws
  stores nothing. \<open>now\<close> is the time of the call, in seconds.
\<close>

definition unstable_cache ::
  "(string \<Rightarrow> world \<Rightarrow> (thrown + json SubtitleBlock list) \<times> world) \<Rightarrow> nat
     \<Rightarrow> string \<Rightarrow> nat \<Rightarrow> world \<Rightarrow> (thrown + json SubtitleBlock list) \<times> world" where
  "unstable_cache worker ttl key now w =
     (let miss = (case worker key w of
                    (Inl err, w') \<Rightarrow> (Inl err, w')
                  | (Inr data, w') \<Rightarrow> (Inr data, w'\<lparr>cache := (cache w')(key \<mapsto> (data, now))\<rparr>))
      in case cache w key of
           None \<Rightarrow> miss
         | Some (data, inserted) \<Rightarrow> if now < inserted + ttl then (Inr data, w) else miss)"

definition getCachedTranscript ::
  "env \<Rightarrow> string \<Rightarrow> nat \<Rightarrow> world \<Rightarrow> (thrown + json SubtitleBlock list) \<times> world" where
  "getCachedTranscript e = unstable_cache (generateTranscriptWorker e) revalidate"

subsection \<open>\<open>extractVideoId\<close> (lines 174-186)\<close>

text \<open>The three alternatives of the first pattern, in the pattern's order.\<close>

definition markers :: "string list" where
  "markers = [''youtube.com/watch?v='', ''youtu.be/'', ''youtube.com/embed/'']"

text \<open>The characters the class \<open>[^&\n?#]\<close> excludes.\<close>

definition is_delim :: "char \<Rightarrow> bool" where
  "is_delim c = (c \<in> set [CHR ''&'', CHR 0x0A, CHR ''?'', CHR ''#''])"

text \<open>The group \<open>([^&\n?#]+)\<close> at the head of a string: the longest run, greedily.\<close>

definition id_run :: "string \<Rightarrow> string" where
  "id_run s = takeWhile (\<lambda>c. \<not> is_delim c) s"

text \<open>
  The first pattern tried at one start position: the alternatives in order, each followed by
  a group of at least one character.
\<close>

fun match_at :: "string list \<Rightarrow> string \<Rightarrow> string option" where
  "match_at [] s = None"
| "match_at (m # ms) s =
     (if prefix m s \<and> id_run (drop (length m) s) \<noteq> [] then Some (id_run (drop (length m) s))
      else match_at ms s)"

text \<open>\<open>url.match\<close> of the first pattern: the leftmost start position that matches.\<close>

fun match_url :: "string \<Rightarrow> string option" where
  "match_url [] = None"
| "match_url (c # cs) =
     (case match_at markers (c # cs) of Some g \<Rightarrow> Some g | None \<Rightarrow> match_url cs)"

text \<open>The class \<open>[a-zA-Z0-9_-]\<close>.\<close>

definition is_id_char :: "char \<Rightarrow> bool" where
  "is_id_char c =
     (let n = (of_char c :: nat) in
      (97 \<le> n \<and> n \<le> 122) \<or> (65 \<le> n \<and> n \<le> 90) \<or> (48 \<le> n \<and> n \<le> 57) \<or>
      c = CHR ''_'' \<or> c = CHR ''-'')"

text \<open>\<open>url.match\<close> of the second pattern, anchored at both ends.\<close>

definition match_bare :: "string \<Rightarrow> string option" where
  "match_bare url = (if length url = 11 \<and> list_all is_id_char url then Some url else None)"

definition extractVideoId :: "string \<Rightarrow> string option" where
  "extractVideoId url =
     (case match_url url of
        Some g \<Rightarrow> Some g
      | None \<Rightarrow> (case match_bare url of Some g \<Rightarrow> Some g | None \<Rightarrow> None))"

subsection \<open>\<open>processVideo\<close>\<close>

definition invalidUrlMessage :: string where
  "invalidUrlMessage = ''Invalid YouTube URL. Please enter a valid YouTube link.''"

text \<open>The \<open>try\<close> block of \<open>processVideo\<close>: \<open>Inl\<close> is what the \<open>catch\<close> receives.
  \<open>!videoId\<close> holds for \<open>null\<close> and for the empty string.\<close>

definition processVideo_try ::
  "env \<Rightarrow> string \<Rightarrow> nat \<Rightarrow> world \<Rightarrow> (thrown + json SubtitleBlock list) \<times> world" where
  "processVideo_try e videoUrl now w =
     (case extractVideoId videoUrl of
        None \<Rightarrow> (Inl (Error invalidUrlMessage), w)
      | Some videoId \<Rightarrow>
          if videoId = [] then (Inl (Error invalidUrlMessage), w)
          else getCachedTranscript e videoId now w)"

text \<open>The \<open>catch\<close> block: the message of an \<open>Error\<close>, a fixed message otherwise.\<close>

definition errorMessage :: "thrown \<Rightarrow> string" where
  "errorMessage err = (case err of Error msg \<Rightarrow> msg | NonError \<Rightarrow> ''An unknown error occurred'')"

definition processVideo ::
  "env \<Rightarrow> string \<Rightarrow> nat \<Rightarrow> world \<Rightarrow> json SubtitleBlock list result completion \<times> world" where
  "processVideo e videoUrl now w =
     (case processVideo_try e videoUrl now w of
        (Inr data, w') \<Rightarrow> (Returned (Success data), w')
      | (Inl err, w') \<Rightarrow> (Returned (Failure (errorMessage err)), w'))"

section \<open>The specification's normalizer, and the reference the code meets\<close>

text \<open>
  Section 4.1 of the specification, in its words: a raw segment is included iff it carries
  both a start time and an end time and a snippet text field, where an absent text is
  tolerated and becomes the empty string; the offset is the parsed start time, the duration
  the parsed end time minus the parsed start time, each defaulting to 0.
\<close>

definition spec_included :: "RawSegment \<Rightarrow> bool" where
  "spec_included segment =
     (start_ms segment \<noteq> None \<and> end_ms segment \<noteq> None \<and>
      (case snippet segment of Some (Value (Snippet t)) \<Rightarrow> True | _ \<Rightarrow> False))"

definition spec_block :: "RawSegment \<Rightarrow> string SubtitleBlock" where
  "spec_block segment =
     \<lparr> text' = (case snippet segment of
                  Some (Value (Snippet (Value t))) \<Rightarrow> t
                | _ \<Rightarrow> []),
       offset = or_zero (parseInt (read_field (start_ms segment))),
       duration = subtract (or_zero (parseInt (read_field (end_ms segment))))
                           (or_zero (parseInt (read_field (start_ms segment)))) \<rparr>"

definition normalize_spec :: "RawSegment list \<Rightarrow> string SubtitleBlock list" where
  "normalize_spec segments = map spec_block (filter spec_included segments)"

text \<open>
  The reference the code meets. A segment is included iff it has a start-time field and a
  snippet whose text is not \<open>undefined\<close>; the end time is not asked for. Its text is the
  snippet's text, the empty string when that is \<open>null\<close>. Its offset is the parsed start
  time and its duration the parsed end time minus the parsed start time, where a time that
  does not parse, or that is missing, counts as 0.
\<close>

fun normalize_reference :: "RawSegment list \<Rightarrow> string SubtitleBlock list" where
  "normalize_reference [] = []"
| "normalize_reference (segment # segments) =
     (case (start_ms segment, snippet segment) of
        (Some start, Some (Value (Snippet Undefined))) \<Rightarrow> normalize_reference segments
      | (Some start, Some (Value (Snippet t))) \<Rightarrow>
          \<lparr> text' = (case t of Value s \<Rightarrow> s | _ \<Rightarrow> []),
            offset = or_zero (parseInt start),
            duration = subtract (or_zero (parseInt (case end_ms segment of
                                                      None \<Rightarrow> Undefined
                                                    | Some e \<Rightarrow> e)))
                                (or_zero (parseInt start)) \<rparr>
          # normalize_reference segments
      | _ \<Rightarrow> normalize_reference segments)"

section \<open>Predicates the statements use\<close>

text \<open>
  An attempt fails when a step of lines 125-141 threw (a request error, a parse error) or
  the parsed value is not a non-empty array (the malformed structure of line 144).
\<close>

definition attempt_fails :: "attempt \<Rightarrow> bool" where
  "attempt_fails a =
     (case a of
        Throws err \<Rightarrow> True
      | Parsed (JArr ps) \<Rightarrow> ps = []
      | Parsed _ \<Rightarrow> True)"

text \<open>The chunks of a list translated in order, the state threaded through.\<close>

fun translate_chunks ::
  "env \<Rightarrow> string SubtitleBlock list list \<Rightarrow> json SubtitleBlock list \<Rightarrow> world
     \<Rightarrow> json SubtitleBlock list \<times> world" where
  "translate_chunks e [] translatedSubs w = (translatedSubs, w)"
| "translate_chunks e (chunk # chunks) translatedSubs w =
     (case translateChunk e chunk 0 w of
        (translated, w') \<Rightarrow> translate_chunks e chunks (translatedSubs @ translated) w')"

text \<open>The URL markers and the characters that end an identifier, as the claims name them.\<close>

definition url_markers :: "string set" where
  "url_markers = {''youtube.com/watch?v='', ''youtu.be/'', ''youtube.com/embed/''}"

definition delimiters :: "char set" where
  "delimiters = {CHR ''&'', CHR 0x0A, CHR ''?'', CHR ''#''}"

text \<open>
  The string \<open>m\<close> stands at position \<open>k\<close> of a string and is followed there by a
  character that is not a delimiter.
\<close>

definition usable_marker :: "string \<Rightarrow> nat \<Rightarrow> string \<Rightarrow> bool" where
  "usable_marker url k m =
     (prefix m (drop k url) \<and>
      k + length m < length url \<and> url ! (k + length m) \<notin> delimiters)"

section \<open>Example inputs\<close>

definition world0 :: world where
  "world0 = \<lparr> cache = Map.empty, fetches = 0, calls = 0, sleeps = [] \<rparr>"

definition example_chunk :: "string SubtitleBlock list" where
  "example_chunk =
     [\<lparr> text' = ''Hello'', offset = Num 0, duration = Num 1500 \<rparr>,
      \<lparr> text' = ''world'', offset = Num 1500, duration = Num 2000 \<rparr>,
      \<lparr> text' = ''again'', offset = Num 5000, duration = Num (- 2000) \<rparr>]"

text \<open>A timeline of 51 blocks: one more than a chunk holds.\<close>

definition long_timeline :: "string SubtitleBlock list" where
  "long_timeline = replicate 51 \<lparr> text' = ''la'', offset = Num 0, duration = Num 1000 \<rparr>"

text \<open>A caption: start, end and text.\<close>

definition caption :: "string \<Rightarrow> string \<Rightarrow> string \<Rightarrow> RawSegment" where
  "caption s e t =
     \<lparr> start_ms = Some (Value s), end_ms = Some (Value e),
       snippet = Some (Value (Snippet (Value t))) \<rparr>"

text \<open>A segment with timing and a snippet whose text is \<open>undefined\<close>.\<close>

definition textless_segment :: RawSegment where
  "textless_segment =
     \<lparr> start_ms = Some (Value ''1500''), end_ms = Some (Value ''1500''),
       snippet = Some (Value (Snippet Undefined)) \<rparr>"

text \<open>A segment with a start time and a text, and no end time.\<close>

definition endless_segment :: RawSegment where
  "endless_segment =
     \<lparr> start_ms = Some (Value ''7000''), end_ms = None,
       snippet = Some (Value (Snippet (Value ''bye''))) \<rparr>"

text \<open>
  A segment whose start-time key holds \<open>undefined\<close>, whose end time is written behind a
  no-break space, and whose text is \<open>null\<close>.
\<close>

definition odd_segment :: RawSegment where
  "odd_segment =
     \<lparr> start_ms = Some Undefined, end_ms = Some (Value ([CHR 0xC2, CHR 0xA0] @ ''1500'')),
       snippet = Some (Value (Snippet Null)) \<rparr>"

text \<open>A segment whose times are past the integers a double holds exactly: \<open>2^53 + 1\<close> and
  \<open>2^53 + 3\<close>.\<close>

definition huge_segment :: RawSegment where
  "huge_segment = caption ''9007199254740993'' ''9007199254740995'' ''late''"

definition example_segments :: "RawSegment list" where
  "example_segments =
     [caption ''0'' ''1500'' ''Hello'', textless_segment, caption ''1500'' ''3500'' ''world'',
      caption ''5000'' ''3000'' ''again'']"

text \<open>A model whose every request fails, behind a caption source with captions.\<close>

definition failing_env :: env where
  "failing_env =
     \<lparr> captionSource = (\<lambda>videoId n. Segments example_segments),
       translator = (\<lambda>n chunk. Throws (Error ''503 Service Unavailable'')) \<rparr>"

text \<open>
  A model that answers every request with an array of two elements: a translated text, and an
  element whose text is empty.
\<close>

definition short_answer :: json where
  "short_answer =
     JArr [JObj [(''text'', JStr ''Xin chao''), (''offset'', JNum 999), (''duration'', JNum 1)],
           JObj [(''text'', JStr []), (''offset'', JNum 1500), (''duration'', JNum 2000)]]"

definition short_env :: env where
  "short_env =
     \<lparr> captionSource = (\<lambda>videoId n. Segments example_segments),
       translator = (\<lambda>n chunk. Parsed short_answer) \<rparr>"

text \<open>A caption source whose track holds one segment, which has no text.\<close>

definition textless_env :: env where
  "textless_env =
     \<lparr> captionSource = (\<lambda>videoId n. Segments [textless_segment]),
       translator = (\<lambda>n chunk. Parsed short_answer) \<rparr>"

text \<open>A caption source that rejects with a value that is not an \<open>Error\<close>.\<close>

definition rejecting_env :: env where
  "rejecting_env =
     \<lparr> captionSource = (\<lambda>videoId n. FetchThrows NonError),
       translator = (\<lambda>n chunk. Parsed short_answer) \<rparr>"

text \<open>What \<open>short_env\<close> makes of the example captions, and the state after that call
  at time 100.\<close>

definition example_translation :: "json SubtitleBlock list" where
  "example_translation =
     [\<lparr> text' = JStr ''Xin chao'', offset = Num 0, duration = Num 1500 \<rparr>,
      \<lparr> text' = JStr ''world'', offset = Num 1500, duration = Num 2000 \<rparr>,
      \<lparr> text' = JStr ''again'', offset = Num 5000, duration = Num (- 2000) \<rparr>]"

definition cached_world :: world where
  "cached_world =
     \<lparr> cache = [''dQw4w9WgXcQ'' \<mapsto> (example_translation, 100)],
       fetches = 1, calls = 1, sleeps = [] \<rparr>"

section \<open>Properties of the translator\<close>

lemma length_reconcile: "length (reconcile chunk ps) = length chunk"
  by (simp add: reconcile_def)

lemma nth_reconcile:
  assumes "i < length chunk"
  shows "reconcile chunk ps ! i =
           \<lparr> text' = text_or_original (text_of (element_at ps i)) (text' (chunk ! i)),
             offset = offset (chunk ! i),
             duration = duration (chunk ! i) \<rparr>"
  using assms by (simp add: reconcile_def nth_enumerate_eq)

lemma length_mark_failed: "length (mark_failed chunk) = length chunk"
  by (simp add: mark_failed_def)

lemma nth_mark_failed:
  assumes "i < length chunk"
  shows "mark_failed chunk ! i =
           \<lparr> text' = JStr (failureMarker @ text' (chunk ! i)),
             offset = offset (chunk ! i),
             duration = duration (chunk ! i) \<rparr>"
  using assms by (simp add: mark_failed_def)

lemma try_translate_Inr:
  assumes "try_translate a chunk = Inr res"
  obtains ps where "a = Parsed (JArr ps)" and "ps \<noteq> []" and "res = reconcile chunk ps"
  using assms
  by (auto simp: try_translate_def split: attempt.splits json.splits if_splits)

lemma try_translate_fails:
  "attempt_fails a \<longleftrightarrow> (\<exists>err. try_translate a chunk = Inl err)"
  by (auto simp: try_translate_def attempt_fails_def split: attempt.splits json.splits)

lemma translateChunk_success:
  assumes "try_translate (translator e (calls w) chunk) chunk = Inr res"
  shows "translateChunk e chunk r w = (res, w\<lparr>calls := Suc (calls w)\<rparr>)"
  using assms by (subst translateChunk.simps) simp

lemma translateChunk_retry:
  assumes "try_translate (translator e (calls w) chunk) chunk = Inl err"
      and "r < MAX_RETRIES"
  shows "translateChunk e chunk r w =
           translateChunk e chunk (Suc r)
             (w\<lparr>calls := Suc (calls w), sleeps := sleeps w @ [1000 * Suc r]\<rparr>)"
  using assms by (subst translateChunk.simps) simp

lemma translateChunk_give_up:
  assumes "try_translate (translator e (calls w) chunk) chunk = Inl err"
      and "\<not> r < MAX_RETRIES"
  shows "translateChunk e chunk r w = (mark_failed chunk, w\<lparr>calls := Suc (calls w)\<rparr>)"
  using assms by (subst translateChunk.simps) simp

lemma translateChunk_shape:
  "length (fst (translateChunk e chunk r w)) = length chunk \<and>
   (\<forall>i<length chunk.
      offset (fst (translateChunk e chunk r w) ! i) = offset (chunk ! i) \<and>
      duration (fst (translateChunk e chunk r w) ! i) = duration (chunk ! i))"
proof (induction e chunk r w rule: translateChunk.induct)
  case (1 e chunk retryCount w)
  show ?case
  proof (cases "try_translate (translator e (calls w) chunk) chunk")
    case (Inr res)
    then obtain ps where "res = reconcile chunk ps"
      by (rule try_translate_Inr)
    with translateChunk_success[OF Inr] show ?thesis
      by (simp add: length_reconcile nth_reconcile)
  next
    case (Inl err)
    show ?thesis
    proof (cases "retryCount < MAX_RETRIES")
      case True
      from "1"[OF refl Inl True] translateChunk_retry[OF Inl True] show ?thesis
        by simp
    next
      case False
      from translateChunk_give_up[OF Inl False] show ?thesis
        by (simp add: length_mark_failed nth_mark_failed)
    qed
  qed
qed

text \<open>
  Claim C1. For every chunk \<open>C\<close>, every translator (whatever each of its attempts
  yields: a full array, a short one, or a failure on every attempt), every retry count and
  every state, the list \<open>translateChunk\<close> returns has the length of \<open>C\<close>, and its
  block at every index \<open>i\<close> has the offset and the duration of \<open>C ! i\<close>. Only the
  text may differ.
\<close>

theorem translateChunk_preserves_timing:
  "length (fst (translateChunk e C r w)) = length C \<and>
   (\<forall>i<length C.
      offset (fst (translateChunk e C r w) ! i) = offset (C ! i) \<and>
      duration (fst (translateChunk e C r w) ! i) = duration (C ! i))"
  by (rule translateChunk_shape)

theorem translateChunk_preserves_timing_witness:
  "length (fst (translateChunk failing_env example_chunk 0 world0)) = 3 \<and>
   offset (fst (translateChunk failing_env example_chunk 0 world0) ! 2) = Num 5000 \<and>
   duration (fst (translateChunk failing_env example_chunk 0 world0) ! 2) = Num (- 2000) \<and>
   offset (fst (translateChunk short_env example_chunk 0 world0) ! 0) = Num 0 \<and>
   duration (fst (translateChunk short_env example_chunk 0 world0) ! 0) = Num 1500"
proof -
  have len: "length example_chunk = 3"
    by (simp add: example_chunk_def)
  note f = translateChunk_preserves_timing[of failing_env example_chunk 0 world0]
  note s = translateChunk_preserves_timing[of short_env example_chunk 0 world0]
  from f have "length (fst (translateChunk failing_env example_chunk 0 world0)) = 3"
    by (simp add: len)
  moreover from f len
  have "offset (fst (translateChunk failing_env example_chunk 0 world0) ! 2) = offset (example_chunk ! 2)"
   and "duration (fst (translateChunk failing_env example_chunk 0 world0) ! 2) = duration (example_chunk ! 2)"
    by simp_all
  moreover from s len
  have "offset (fst (translateChunk short_env example_chunk 0 world0) ! 0) = offset (example_chunk ! 0)"
   and "duration (fst (translateChunk short_env example_chunk 0 world0) ! 0) = duration (example_chunk ! 0)"
    by simp_all
  ultimately show ?thesis
    by (simp add: example_chunk_def)
qed

text \<open>Four failed attempts in a row, from retry count 0: three delays, then the fallback.\<close>

lemma translateChunk_exhausted:
  assumes "\<forall>k<4. attempt_fails (translator e (calls w + k) chunk)"
  shows "translateChunk e chunk 0 w =
           (mark_failed chunk,
            w\<lparr>calls := calls w + 4, sleeps := sleeps w @ [1000, 2000, 3000]\<rparr>)"
proof -
  from assms obtain e0 e1 e2 e3 where
    a0: "try_translate (translator e (calls w) chunk) chunk = Inl e0" and
    a1: "try_translate (translator e (Suc (calls w)) chunk) chunk = Inl e1" and
    a2: "try_translate (translator e (Suc (Suc (calls w))) chunk) chunk = Inl e2" and
    a3: "try_translate (translator e (Suc (Suc (Suc (calls w)))) chunk) chunk = Inl e3"
  proof -
    have f: "attempt_fails (translator e (calls w + k) chunk)" if "k < 4" for k
      using assms that by blast
    have "attempt_fails (translator e (calls w) chunk)"
      and "attempt_fails (translator e (Suc (calls w)) chunk)"
      and "attempt_fails (translator e (Suc (Suc (calls w))) chunk)"
      and "attempt_fails (translator e (Suc (Suc (Suc (calls w)))) chunk)"
      using f[of 0] f[of 1] f[of 2] f[of 3] by (simp_all add: numeral_3_eq_3)
    then show ?thesis
      using that by (auto simp: try_translate_fails[of _ chunk])
  qed
  let ?w1 = "w\<lparr>calls := Suc (calls w), sleeps := sleeps w @ [1000 * Suc 0]\<rparr>"
  let ?w2 = "?w1\<lparr>calls := Suc (calls ?w1), sleeps := sleeps ?w1 @ [1000 * Suc (Suc 0)]\<rparr>"
  let ?w3 = "?w2\<lparr>calls := Suc (calls ?w2), sleeps := sleeps ?w2 @ [1000 * Suc (Suc (Suc 0))]\<rparr>"
  have "translateChunk e chunk 0 w = translateChunk e chunk (Suc 0) ?w1"
    using a0 by (rule translateChunk_retry) (simp add: MAX_RETRIES_def)
  also have "\<dots> = translateChunk e chunk (Suc (Suc 0)) ?w2"
    by (rule translateChunk_retry[where err = e1]) (simp_all add: MAX_RETRIES_def a1)
  also have "\<dots> = translateChunk e chunk (Suc (Suc (Suc 0))) ?w3"
    by (rule translateChunk_retry[where err = e2]) (simp_all add: MAX_RETRIES_def a2)
  also have "\<dots> = (mark_failed chunk, ?w3\<lparr>calls := Suc (calls ?w3)\<rparr>)"
    by (rule translateChunk_give_up[where err = e3]) (simp_all add: MAX_RETRIES_def a3)
  finally show ?thesis
    by simp
qed

text \<open>
  Claim C3, amended. If every attempt to translate a chunk fails (a step threw, or the parsed
  value is not a non-empty array), \<open>translateChunk\<close> does not fail: it returns the
  chunk with every text behind the failure marker and the timing unchanged. It has then made
  four attempts, the first and \<open>MAX_RETRIES = 3\<close> retries, and has waited 1000, 2000
  and 3000 milliseconds between them: \<open>1000 * k\<close> after the \<open>k\<close>-th failed attempt,
  and nothing after the last.
\<close>

theorem translateChunk_all_attempts_fail:
  assumes "\<forall>k<4. attempt_fails (translator e (calls w + k) chunk)"
  shows "translateChunk e chunk 0 w =
           (map (\<lambda>item. \<lparr> text' = JStr (failureMarker @ text' item),
                           offset = offset item,
                           duration = duration item \<rparr>) chunk,
            w\<lparr>calls := calls w + 4, sleeps := sleeps w @ [1000, 2000, 3000]\<rparr>)"
  using translateChunk_exhausted[OF assms] by (simp add: mark_failed_def)

theorem translateChunk_all_attempts_fail_witness:
  "attempt_fails (translator failing_env 0 example_chunk) \<and>
   fst (translateChunk failing_env example_chunk 0 world0) ! 1 =
     \<lparr> text' = JStr (failureMarker @ ''world''), offset = Num 1500, duration = Num 2000 \<rparr> \<and>
   calls (snd (translateChunk failing_env example_chunk 0 world0)) = 4 \<and>
   sleeps (snd (translateChunk failing_env example_chunk 0 world0)) = [1000, 2000, 3000]"
proof -
  have fails: "\<forall>k<4. attempt_fails (translator failing_env (calls world0 + k) example_chunk)"
    by (simp add: failing_env_def attempt_fails_def)
  show ?thesis
    using fails translateChunk_all_attempts_fail[OF fails]
    by (simp add: failing_env_def attempt_fails_def example_chunk_def world0_def)
qed

text \<open>
  Claim C3 as stated fails: with every attempt failing, the attempts made are four, not
  \<open>MAX_RETRIES = 3\<close>.
\<close>

theorem translateChunk_three_attempts_counterexample:
  "fst (translateChunk failing_env example_chunk 0 world0) = mark_failed example_chunk \<and>
   calls (snd (translateChunk failing_env example_chunk 0 world0)) - calls world0 \<noteq> MAX_RETRIES"
proof -
  have fails: "\<forall>k<4. attempt_fails (translator failing_env (calls world0 + k) example_chunk)"
    by (simp add: failing_env_def attempt_fails_def)
  have "translateChunk failing_env example_chunk 0 world0 =
          (mark_failed example_chunk,
           world0\<lparr>calls := calls world0 + 4, sleeps := sleeps world0 @ [1000, 2000, 3000]\<rparr>)"
    by (rule translateChunk_exhausted[OF fails])
  then show ?thesis
    by (simp add: MAX_RETRIES_def)
qed



section \<open>Properties of the chunker\<close>

lemma slice_length: "length (slice xs b (b + N)) = min N (length xs - b)"
  by (simp add: slice_def)

lemma slice_append_drop: "slice xs b (b + N) @ drop (b + N) xs = drop b xs"
proof -
  have "drop (b + N) xs = drop N (drop b xs)"
    by (simp add: add.commute)
  then have "slice xs b (b + N) @ drop (b + N) xs = take N (drop b xs) @ drop N (drop b xs)"
    by (simp only: slice_def add_diff_cancel_left')
  then show ?thesis
    by (simp only: append_take_drop_id)
qed

lemma chunk_count_step:
  assumes "0 < N" and "0 < d"
  shows "(d + N - 1) div N = Suc ((d - N + N - 1) div N)"
proof -
  have "d + N - 1 = (d - 1) + N"
    using assms by simp
  then have "(d + N - 1) div N = ((d - 1) + N) div N"
    by (simp only:)
  also have "\<dots> = Suc ((d - 1) div N)"
    using assms(1) div_add_self2[of N "d - 1"] by simp
  also have "(d - 1) div N = (d - N + N - 1) div N"
  proof (cases "N \<le> d")
    case True
    then show ?thesis by simp
  next
    case False
    then have "d - 1 < N" and "d - N + N - 1 < N"
      using assms by simp_all
    then show ?thesis by simp
  qed
  finally show ?thesis .
qed

lemma chunk_loop_invariant:
  assumes "0 < N"
  shows "\<exists>cs. chunk_loop N T i acc = Some (acc @ cs) \<and>
              concat cs = drop i T \<and>
              (cs = [] \<longleftrightarrow> length T \<le> i) \<and>
              length cs = (length T - i + N - 1) div N \<and>
              (\<forall>k. Suc k < length cs \<longrightarrow> length (cs ! k) = N) \<and>
              (cs \<noteq> [] \<longrightarrow>
                 length (last cs) =
                   (if (length T - i) mod N = 0 then N else (length T - i) mod N))"
proof (induction "length T - i" arbitrary: i acc rule: less_induct)
  case less
  show ?case
  proof (cases "i < length T")
    case False
    then have "chunk_loop N T i acc = Some (acc @ [])"
      by (subst chunk_loop.simps) simp
    moreover have "(length T - i + N - 1) div N = 0"
      using False assms by simp
    ultimately show ?thesis
      using False by simp
  next
    case True
    let ?c = "slice T i (i + N)"
    let ?d = "length T - i"
    have d_pos: "0 < ?d" using True by simp
    have "length T - (i + N) < length T - i"
      using True assms by simp
    from less[OF this, of "acc @ [?c]"] obtain cs where
      ih: "chunk_loop N T (i + N) (acc @ [?c]) = Some ((acc @ [?c]) @ cs) \<and>
           concat cs = drop (i + N) T \<and>
           (cs = [] \<longleftrightarrow> length T \<le> i + N) \<and>
           length cs = (length T - (i + N) + N - 1) div N \<and>
           (\<forall>k. Suc k < length cs \<longrightarrow> length (cs ! k) = N) \<and>
           (cs \<noteq> [] \<longrightarrow>
              length (last cs) =
                (if (length T - (i + N)) mod N = 0 then N else (length T - (i + N)) mod N))" ..
    note run = ih[THEN conjunct1]
     and cat = ih[THEN conjunct2, THEN conjunct1]
     and emp = ih[THEN conjunct2, THEN conjunct2, THEN conjunct1]
     and len = ih[THEN conjunct2, THEN conjunct2, THEN conjunct2, THEN conjunct1]
     and full = ih[THEN conjunct2, THEN conjunct2, THEN conjunct2, THEN conjunct2, THEN conjunct1]
     and lst = ih[THEN conjunct2, THEN conjunct2, THEN conjunct2, THEN conjunct2, THEN conjunct2]
    have step: "chunk_loop N T i acc = Some (acc @ (?c # cs))"
      using True run by (subst chunk_loop.simps) simp
    have c1: "concat (?c # cs) = drop i T"
      using cat by (simp add: slice_append_drop)
    have c2: "length (?c # cs) = (?d + N - 1) div N"
      using len chunk_count_step[OF assms d_pos] by simp
    have c3: "\<forall>k. Suc k < length (?c # cs) \<longrightarrow> length ((?c # cs) ! k) = N"
    proof (intro allI impI)
      fix k assume k: "Suc k < length (?c # cs)"
      show "length ((?c # cs) ! k) = N"
      proof (cases k)
        case 0
        from k have "cs \<noteq> []" by auto
        with emp have "i + N < length T" by simp
        then show ?thesis
          using 0 by (simp add: slice_length)
      next
        case (Suc k')
        with k full show ?thesis by simp
      qed
    qed
    have c4: "length (last (?c # cs)) = (if ?d mod N = 0 then N else ?d mod N)"
    proof (cases "cs = []")
      case True
      with emp have le: "?d \<le> N" by simp
      have "length ?c = ?d"
        using le by (simp add: slice_length)
      moreover have "(if ?d mod N = 0 then N else ?d mod N) = ?d"
      proof (cases "?d = N")
        case True
        then show ?thesis by simp
      next
        case False
        with le have "?d < N" by simp
        with d_pos show ?thesis by simp
      qed
      ultimately show ?thesis
        using True by simp
    next
      case False
      with emp have gt: "N < ?d" by simp
      have "(length T - (i + N)) mod N = ?d mod N"
        using gt le_mod_geq[of N ?d] by simp
      with lst False show ?thesis by simp
    qed
    show ?thesis
    proof (intro exI[of _ "?c # cs"] conjI)
      show "chunk_loop N T i acc = Some (acc @ ?c # cs)" by (rule step)
      show "concat (?c # cs) = drop i T" by (rule c1)
      show "(?c # cs = []) = (length T \<le> i)" using True by simp
      show "length (?c # cs) = (?d + N - 1) div N" by (rule c2)
      show "\<forall>k. Suc k < length (?c # cs) \<longrightarrow> length ((?c # cs) ! k) = N" by (rule c3)
      show "?c # cs \<noteq> [] \<longrightarrow>
              length (last (?c # cs)) = (if ?d mod N = 0 then N else ?d mod N)"
        by (intro impI) (rule c4)
    qed
  qed
qed

lemma chunk_loop_accumulates:
  assumes "0 < N"
  shows "chunk_loop N T i acc = map_option ((@) acc) (chunk_loop N T i [])"
proof (induction "length T - i" arbitrary: i acc rule: less_induct)
  case less
  show ?case
  proof (cases "i < length T")
    case False
    then have "chunk_loop N T i acc = Some acc" and "chunk_loop N T i [] = Some []"
      by (subst chunk_loop.simps, simp)+
    then show ?thesis by simp
  next
    case True
    let ?c = "slice T i (i + N)"
    have smaller: "length T - (i + N) < length T - i"
      using True assms by simp
    have "chunk_loop N T i acc = chunk_loop N T (i + N) (acc @ [?c])"
      using True by (subst chunk_loop.simps) simp
    also have "\<dots> = map_option ((@) (acc @ [?c])) (chunk_loop N T (i + N) [])"
      by (rule less[OF smaller])
    finally have left: "chunk_loop N T i acc = map_option ((@) (acc @ [?c])) (chunk_loop N T (i + N) [])" .
    have "chunk_loop N T i [] = chunk_loop N T (i + N) ([] @ [?c])"
      using True by (subst chunk_loop.simps) simp
    also have "\<dots> = map_option ((@) ([] @ [?c])) (chunk_loop N T (i + N) [])"
      by (rule less[OF smaller])
    finally have right: "chunk_loop N T i [] = map_option ((@) [?c]) (chunk_loop N T (i + N) [])"
      by simp
    show ?thesis
      unfolding left right by (cases "chunk_loop N T (i + N) []") simp_all
  qed
qed

text \<open>
  The worker's loop translates exactly the chunks \<open>chunk_loop\<close> cuts at
  \<open>chunkSize\<close>, in their order.
\<close>

lemma translate_loop_chunks:
  assumes "chunk_loop chunkSize T i [] = Some cs"
  shows "translate_loop e T i acc w = translate_chunks e cs acc w"
  using assms
proof (induction e T i acc w arbitrary: cs rule: translate_loop.induct)
  case (1 e transcript i translatedSubs w)
  show ?case
  proof (cases "i < length transcript")
    case False
    with "1.prems" have "cs = []"
      by (subst (asm) chunk_loop.simps) simp
    with False show ?thesis
      by (subst translate_loop.simps) simp
  next
    case True
    let ?c = "slice transcript i (i + chunkSize)"
    have pos: "0 < chunkSize" by (simp add: chunkSize_def)
    have "chunk_loop chunkSize transcript i [] = chunk_loop chunkSize transcript (i + chunkSize) [?c]"
      using True by (subst chunk_loop.simps) simp
    also have "\<dots> = map_option ((@) [?c]) (chunk_loop chunkSize transcript (i + chunkSize) [])"
      by (rule chunk_loop_accumulates[OF pos])
    finally have "map_option ((@) [?c]) (chunk_loop chunkSize transcript (i + chunkSize) []) = Some cs"
      using "1.prems" by simp
    then obtain cs' where
      rest: "chunk_loop chunkSize transcript (i + chunkSize) [] = Some cs'" and cs: "cs = ?c # cs'"
      by (cases "chunk_loop chunkSize transcript (i + chunkSize) []") auto
    obtain translated w' where tr: "translateChunk e ?c 0 w = (translated, w')"
      by (cases "translateChunk e ?c 0 w")
    have "translate_loop e transcript i translatedSubs w =
            translate_loop e transcript (i + chunkSize) (translatedSubs @ translated) w'"
      using True tr by (subst translate_loop.simps) simp
    also have "\<dots> = translate_chunks e cs' (translatedSubs @ translated) w'"
      using True tr[symmetric] rest by (rule "1.IH")
    finally show ?thesis
      using cs tr by simp
  qed
qed

text \<open>
  Claim C2. For every timeline \<open>T\<close> and chunk size \<open>N > 0\<close> the chunking loop
  ends, and the chunks it has cut, concatenated in order, are \<open>T\<close>; there are
  \<open>ceil(length T / N)\<close> of them, every chunk but the last has \<open>N\<close> elements, and
  the last has \<open>length T mod N\<close> elements, or \<open>N\<close> when \<open>N\<close> divides
  \<open>length T\<close>. At the worker's chunk size these are the chunks the worker's loop hands
  to \<open>translateChunk\<close>, one after the other, appending each result.
\<close>

theorem chunking_is_lossless_partition:
  fixes T :: "string SubtitleBlock list"
  assumes "0 < N"
  shows "\<exists>cs. chunk_loop N T 0 [] = Some cs \<and>
              concat cs = T \<and>
              length cs = (length T + N - 1) div N \<and>
              (\<forall>k. Suc k < length cs \<longrightarrow> length (cs ! k) = N) \<and>
              (cs \<noteq> [] \<longrightarrow>
                 length (last cs) = (if length T mod N = 0 then N else length T mod N)) \<and>
              (N = chunkSize \<longrightarrow>
                 (\<forall>e w. translate_loop e T 0 [] w = translate_chunks e cs [] w))"
proof -
  from chunk_loop_invariant[OF assms, of T 0 "[]"] obtain cs where
    inv: "chunk_loop N T 0 [] = Some ([] @ cs) \<and>
          concat cs = drop 0 T \<and>
          (cs = [] \<longleftrightarrow> length T \<le> 0) \<and>
          length cs = (length T - 0 + N - 1) div N \<and>
          (\<forall>k. Suc k < length cs \<longrightarrow> length (cs ! k) = N) \<and>
          (cs \<noteq> [] \<longrightarrow>
             length (last cs) =
               (if (length T - 0) mod N = 0 then N else (length T - 0) mod N))" ..
  have run: "chunk_loop N T 0 [] = Some cs"
    using inv by simp
  have tie: "translate_loop e T 0 [] w = translate_chunks e cs [] w" if "N = chunkSize" for e w
    using run that by (simp add: translate_loop_chunks)
  show ?thesis
  proof (intro exI[of _ cs] conjI)
    show "chunk_loop N T 0 [] = Some cs" by (rule run)
    show "concat cs = T" using inv by simp
    show "length cs = (length T + N - 1) div N" using inv by simp
    show "\<forall>k. Suc k < length cs \<longrightarrow> length (cs ! k) = N" using inv by blast
    show "cs \<noteq> [] \<longrightarrow>
            length (last cs) = (if length T mod N = 0 then N else length T mod N)"
      using inv by simp
    show "N = chunkSize \<longrightarrow> (\<forall>e w. translate_loop e T 0 [] w = translate_chunks e cs [] w)"
      using tie by blast
  qed
qed

theorem chunking_is_lossless_partition_witness:
  "0 < chunkSize \<and>
   chunk_loop chunkSize long_timeline 0 [] =
     Some [take 50 long_timeline, drop 50 long_timeline] \<and>
   length (take 50 long_timeline) = 50 \<and> length (drop 50 long_timeline) = 1 \<and>
   translate_loop failing_env long_timeline 0 [] world0 =
     (mark_failed (take 50 long_timeline) @ mark_failed (drop 50 long_timeline),
      world0\<lparr>calls := 8, sleeps := [1000, 2000, 3000, 1000, 2000, 3000]\<rparr>)"
proof -
  have pos: "0 < chunkSize"
    by (simp add: chunkSize_def)
  from chunking_is_lossless_partition[OF pos, of long_timeline] obtain cs where
    run: "chunk_loop chunkSize long_timeline 0 [] = Some cs" and
    tie: "chunkSize = chunkSize \<longrightarrow>
            (\<forall>e w. translate_loop e long_timeline 0 [] w = translate_chunks e cs [] w)"
    by blast
  have len: "length long_timeline = 51"
    by (simp add: long_timeline_def)
  have "chunk_loop chunkSize long_timeline 0 [] =
          Some [take 50 long_timeline, drop 50 long_timeline]"
    by (simp add: chunk_loop.simps slice_def chunkSize_def len)
  with run have cs: "cs = [take 50 long_timeline, drop 50 long_timeline]"
    by simp
  have fails: "\<forall>k<4. attempt_fails (translator failing_env (calls w + k) chunk)" for w chunk
    by (simp add: failing_env_def attempt_fails_def)
  have "translate_loop failing_env long_timeline 0 [] world0 =
          translate_chunks failing_env cs [] world0"
    using tie by blast
  also have "\<dots> =
     (mark_failed (take 50 long_timeline) @ mark_failed (drop 50 long_timeline),
      world0\<lparr>calls := 8, sleeps := [1000, 2000, 3000, 1000, 2000, 3000]\<rparr>)"
    by (simp add: cs translateChunk_exhausted[OF fails] world0_def)
  finally show ?thesis
    using pos run cs len by simp
qed

section \<open>Properties of the normalizer\<close>

lemma keep_segment_iff:
  "keep_segment s \<longleftrightarrow>
     (\<exists>start t. start_ms s = Some start \<and> snippet s = Some (Value (Snippet t)) \<and> t \<noteq> Undefined)"
proof (cases "snippet s")
  case None
  then show ?thesis by (simp add: keep_segment_def)
next
  case (Some v)
  show ?thesis
  proof (cases v)
    case (Value sn)
    with Some show ?thesis
      by (cases sn; cases "start_ms s")
         (auto simp: keep_segment_def read_field_def optional_text_def)
  qed (use Some in \<open>simp_all add: keep_segment_def read_field_def optional_text_def\<close>)
qed

lemma text_or_empty_eq: "text_or_empty t = (case t of Value s \<Rightarrow> s | _ \<Rightarrow> [])"
  by (simp add: text_or_empty_def split: nullable.splits)

lemma normalize_segments_eq_reference:
  "normalize_segments segments = Some (normalize_reference segments)"
proof (induction segments)
  case Nil
  show ?case by (simp add: normalize_segments_def)
next
  case (Cons s segments)
  show ?case
  proof (cases "keep_segment s")
    case True
    then obtain start t where
      "start_ms s = Some start" and "snippet s = Some (Value (Snippet t))" and "t \<noteq> Undefined"
      unfolding keep_segment_iff by blast
    with True Cons show ?thesis
      by (cases t)
         (simp_all add: normalize_segments_def to_block_def read_field_def text_or_empty_eq
            split: option.splits)
  next
    case False
    then have "normalize_reference (s # segments) = normalize_reference segments"
      unfolding keep_segment_iff
      by (auto split: option.splits nullable.splits snippet.splits)
    with False Cons show ?thesis
      by (simp add: normalize_segments_def)
  qed
qed

text \<open>The times of the example segments, parsed.\<close>

lemma parseInt_examples:
  "parseInt (Value ''0'') = Num 0"
  "parseInt (Value ''1500'') = Num 1500"
  "parseInt (Value ''3000'') = Num 3000"
  "parseInt (Value ''3500'') = Num 3500"
  "parseInt (Value ''5000'') = Num 5000"
  "parseInt (Value ''7000'') = Num 7000"
  "parseInt (Value ([CHR 0xC2, CHR 0xA0] @ ''1500'')) = Num 1500"
  "parseInt (Value ''9007199254740993'') = Num 9007199254740992"
  "parseInt (Value ''9007199254740995'') = Num 9007199254740996"
  "parseInt Undefined = NaN"
  "parseInt Null = NaN"
  by code_simp+

text \<open>
  Claim C5, amended. The normalizer never throws and equals the reference: a raw segment is
  included iff it carries a start-time field and a snippet whose text is not
  \<open>undefined\<close> (a segment whose snippet text is \<open>undefined\<close> is left out, one whose
  text is \<open>null\<close> or empty is included with the empty string; an end time is not
  required); for an included segment the offset is the parsed start time and the duration the
  parsed end time minus the parsed start time, each parse giving 0 when it fails or the value
  is missing, so that a duration may be negative.
\<close>

theorem normalize_meets_reference:
  "normalize_segments segments = Some (normalize_reference segments)"
  by (rule normalize_segments_eq_reference)

theorem normalize_meets_reference_witness:
  "normalize_segments (odd_segment # huge_segment # endless_segment # example_segments) =
     Some [\<lparr> text' = [], offset = Num 0, duration = Num 1500 \<rparr>,
           \<lparr> text' = ''late'', offset = Num 9007199254740992, duration = Num 4 \<rparr>,
           \<lparr> text' = ''bye'', offset = Num 7000, duration = Num (- 7000) \<rparr>,
           \<lparr> text' = ''Hello'', offset = Num 0, duration = Num 1500 \<rparr>,
           \<lparr> text' = ''world'', offset = Num 1500, duration = Num 2000 \<rparr>,
           \<lparr> text' = ''again'', offset = Num 5000, duration = Num (- 2000) \<rparr>]"
  using normalize_meets_reference[of "odd_segment # huge_segment # endless_segment # example_segments"]
  by (simp add: example_segments_def odd_segment_def huge_segment_def endless_segment_def
        textless_segment_def caption_def or_zero_def to_double_def parseInt_examples
        del: append.simps)

text \<open>
  Claim C5 as stated fails both ways: a segment whose snippet text is \<open>undefined\<close> is
  left out by the code and included by the specification's definition, and a segment without
  an end time is included by the code and left out by the specification's definition.
\<close>

theorem normalize_spec_counterexample:
  "normalize_segments [textless_segment] \<noteq> Some (normalize_spec [textless_segment]) \<and>
   normalize_segments [endless_segment] \<noteq> Some (normalize_spec [endless_segment])"
proof -
  have "normalize_segments [textless_segment] = Some []"
    and "normalize_spec [textless_segment] =
           [\<lparr> text' = [], offset = Num 1500, duration = Num 0 \<rparr>]"
    and "normalize_segments [endless_segment] =
           Some [\<lparr> text' = ''bye'', offset = Num 7000, duration = Num (- 7000) \<rparr>]"
    and "normalize_spec [endless_segment] = []"
    by (simp_all add: normalize_segments_def normalize_spec_def keep_segment_def
          spec_included_def to_block_def spec_block_def endless_segment_def textless_segment_def
          read_field_def optional_text_def text_or_empty_def or_zero_def to_double_def
          parseInt_examples)
  then show ?thesis
    by simp
qed

section \<open>Properties of \<open>extractVideoId\<close>\<close>

lemma match_at_Some_prefix:
  assumes "match_at ms s = Some g"
  shows "\<exists>m\<in>set ms. prefix m s"
  using assms by (induction ms) (auto split: if_splits)

lemma match_at_no_marker:
  assumes "\<forall>m\<in>set ms. \<not> prefix m s"
  shows "match_at ms s = None"
  using assms by (induction ms) auto

lemma match_at_marker:
  assumes "m \<in> set markers" and "id_run rest \<noteq> []"
  shows "match_at markers (m @ rest) = Some (id_run rest)"
proof -
  from assms(1) consider "m = ''youtube.com/watch?v=''" | "m = ''youtu.be/''"
    | "m = ''youtube.com/embed/''"
    by (auto simp: markers_def)
  then show ?thesis
  proof cases
    case 1
    with assms(2) show ?thesis by (simp add: markers_def)
  next
    case 2
    with assms(2) show ?thesis by (simp add: markers_def)
  next
    case 3
    with assms(2) show ?thesis by (simp add: markers_def)
  qed
qed

lemma match_url_skip:
  assumes "\<forall>k<length pre. match_at markers (drop k (pre @ s)) = None"
  shows "match_url (pre @ s) = match_url s"
  using assms
proof (induction pre)
  case Nil
  show ?case by simp
next
  case (Cons c pre)
  from Cons.prems have here: "match_at markers ((c # pre) @ s) = None"
    by (auto dest: spec[of _ 0])
  have "\<forall>k<length pre. match_at markers (drop k (pre @ s)) = None"
  proof (intro allI impI)
    fix k assume "k < length pre"
    then have "Suc k < length (c # pre)" by simp
    with Cons.prems have "match_at markers (drop (Suc k) ((c # pre) @ s)) = None"
      by blast
    then show "match_at markers (drop k (pre @ s)) = None" by simp
  qed
  with Cons.IH have "match_url (pre @ s) = match_url s" .
  with here show ?case by simp
qed

lemma markers_nonempty: "m \<in> set markers \<Longrightarrow> m \<noteq> []"
  by (auto simp: markers_def)

lemma match_url_marker:
  assumes "m \<in> set markers" and "id_run rest \<noteq> []"
  shows "match_url (m @ rest) = Some (id_run rest)"
proof -
  from markers_nonempty[OF assms(1)] obtain c cs where m: "m = c # cs"
    by (cases m) auto
  have "match_url ((c # cs) @ rest) =
          (case match_at markers ((c # cs) @ rest) of Some g \<Rightarrow> Some g | None \<Rightarrow> match_url (cs @ rest))"
    by simp
  with match_at_marker[OF assms] m show ?thesis by simp
qed

lemma set_markers: "set markers = url_markers"
  by (auto simp: markers_def url_markers_def)

lemma is_delim_iff: "is_delim c \<longleftrightarrow> c \<in> delimiters"
  by (auto simp: is_delim_def delimiters_def)

lemma id_run_nonempty_iff: "id_run s \<noteq> [] \<longleftrightarrow> s \<noteq> [] \<and> hd s \<notin> delimiters"
  by (cases s) (simp_all add: id_run_def is_delim_iff)

lemma id_run_ident:
  assumes "set ident \<inter> delimiters = {}" and "tail = [] \<or> hd tail \<in> delimiters"
  shows "id_run (ident @ tail) = ident"
proof -
  have all: "\<forall>c\<in>set ident. \<not> is_delim c"
    using assms(1) by (auto simp: is_delim_iff)
  have stop: "takeWhile (\<lambda>c. \<not> is_delim c) tail = []"
    using assms(2) by (cases tail) (auto simp: is_delim_iff)
  show ?thesis
    unfolding id_run_def using all stop by (simp add: takeWhile_append2)
qed

lemma usable_marker_iff:
  "usable_marker url k m \<longleftrightarrow>
     prefix m (drop k url) \<and> id_run (drop (k + length m) url) \<noteq> []"
  by (auto simp: usable_marker_def id_run_nonempty_iff hd_drop_conv_nth)

lemma match_at_None_iff:
  "match_at ms s = None \<longleftrightarrow>
     (\<forall>m\<in>set ms. \<not> (prefix m s \<and> id_run (drop (length m) s) \<noteq> []))"
  by (induction ms) auto

lemma no_usable_marker_no_match:
  assumes "\<forall>m'\<in>url_markers. \<not> usable_marker url k m'"
  shows "match_at markers (drop k url) = None"
proof -
  have "drop (length m) (drop k url) = drop (k + length m) url" for m :: string
    by (simp add: add.commute)
  with assms show ?thesis
    unfolding match_at_None_iff usable_marker_iff set_markers by simp
qed

lemma match_url_no_match:
  assumes "\<forall>k<length url. match_at markers (drop k url) = None"
  shows "match_url url = None"
proof -
  have "match_url (url @ []) = match_url []"
    by (rule match_url_skip) (use assms in simp)
  then show ?thesis by simp
qed

lemma marker_not_bare:
  assumes "m \<in> url_markers"
  shows "match_bare (pre @ m @ rest) = None"
proof -
  have "CHR ''/'' \<in> set m"
    using assms by (auto simp: url_markers_def)
  moreover have "\<not> is_id_char (CHR ''/'')"
    by (simp add: is_id_char_def)
  ultimately have "\<not> list_all is_id_char (pre @ m @ rest)"
    by (auto simp: list_all_iff)
  then show ?thesis
    by (simp add: match_bare_def)
qed

text \<open>
  The rule of the first pattern: the first marker that is followed by a character other than
  a delimiter gives the identifier, which runs to the next delimiter or to the end.
\<close>

lemma extractVideoId_first_usable:
  assumes "m \<in> url_markers"
      and "ident \<noteq> []"
      and "set ident \<inter> delimiters = {}"
      and "tail = [] \<or> hd tail \<in> delimiters"
      and "\<forall>k<length pre. \<forall>m'\<in>url_markers. \<not> usable_marker (pre @ m @ ident @ tail) k m'"
  shows "extractVideoId (pre @ m @ ident @ tail) = Some ident"
proof -
  have run: "id_run (ident @ tail) = ident"
    using assms(3,4) by (rule id_run_ident)
  have m: "m \<in> set markers"
    using assms(1) by (simp add: set_markers)
  have "\<forall>k<length pre. match_at markers (drop k (pre @ m @ ident @ tail)) = None"
  proof (intro allI impI)
    fix k assume "k < length pre"
    with assms(5) have "\<forall>m'\<in>url_markers. \<not> usable_marker (pre @ m @ ident @ tail) k m'"
      by blast
    then show "match_at markers (drop k (pre @ m @ ident @ tail)) = None"
      by (rule no_usable_marker_no_match)
  qed
  then have "match_url (pre @ m @ ident @ tail) = match_url (m @ ident @ tail)"
    by (rule match_url_skip)
  also have "\<dots> = Some (id_run (ident @ tail))"
    using m assms(2) by (intro match_url_marker) (simp_all add: run)
  finally show ?thesis
    by (simp add: extractVideoId_def run)
qed

text \<open>An input that holds a marker, none of its markers followed by such a character.\<close>

lemma extractVideoId_no_usable:
  assumes "m \<in> url_markers"
      and "\<forall>k<length (pre @ m @ rest). \<forall>m'\<in>url_markers. \<not> usable_marker (pre @ m @ rest) k m'"
  shows "extractVideoId (pre @ m @ rest) = None"
proof -
  have "\<forall>k<length (pre @ m @ rest). match_at markers (drop k (pre @ m @ rest)) = None"
  proof (intro allI impI)
    fix k assume "k < length (pre @ m @ rest)"
    with assms(2) have "\<forall>m'\<in>url_markers. \<not> usable_marker (pre @ m @ rest) k m'"
      by blast
    then show "match_at markers (drop k (pre @ m @ rest)) = None"
      by (rule no_usable_marker_no_match)
  qed
  then have "match_url (pre @ m @ rest) = None"
    by (rule match_url_no_match)
  with marker_not_bare[OF assms(1), of pre rest] show ?thesis
    by (simp add: extractVideoId_def)
qed

text \<open>
  Claim C10, amended. In an input string, let a URL marker be followed by at least one
  character other than \<open>&\<close>, newline, \<open>?\<close> and \<open>#\<close>, and let no marker before it be
  so followed. Then \<open>extractVideoId\<close> returns the characters that follow this marker up
  to the first of those four characters, or to the end of the string, whatever their number:
  the length of 11 is asked of a bare input only. A marker directly followed by one of the
  four characters, or by the end of the string, is passed over; an input that holds a marker
  and whose markers are all of that kind gives no identifier.
\<close>

theorem extractVideoId_after_marker:
  "(m \<in> url_markers \<and> ident \<noteq> [] \<and> set ident \<inter> delimiters = {} \<and>
    (tail = [] \<or> hd tail \<in> delimiters) \<and>
    (\<forall>k<length pre. \<forall>m'\<in>url_markers. \<not> usable_marker (pre @ m @ ident @ tail) k m')
      \<longrightarrow> extractVideoId (pre @ m @ ident @ tail) = Some ident) \<and>
   (m \<in> url_markers \<and>
    (\<forall>k<length (pre @ m @ rest). \<forall>m'\<in>url_markers. \<not> usable_marker (pre @ m @ rest) k m')
      \<longrightarrow> extractVideoId (pre @ m @ rest) = None)"
  using extractVideoId_first_usable[of m ident tail pre] extractVideoId_no_usable[of m pre rest]
  by blast

theorem extractVideoId_after_marker_witness:
  "extractVideoId ''https://youtu.be/abc?t=5'' = Some ''abc'' \<and>
   extractVideoId ''https://www.youtube.com/watch?v=dQw4w9WgXcQ_EXTRA&t=1'' =
     Some ''dQw4w9WgXcQ_EXTRA'' \<and>
   extractVideoId ''https://youtu.be/?u=youtube.com/embed/XYZ'' = Some ''XYZ'' \<and>
   extractVideoId ''https://youtu.be/'' = None"
proof -
  have short: "extractVideoId (''https://'' @ ''youtu.be/'' @ ''abc'' @ ''?t=5'') = Some ''abc''"
    by (rule extractVideoId_after_marker[where rest = "[]", THEN conjunct1, rule_format])
       (simp add: url_markers_def delimiters_def usable_marker_def All_less_Suc2)
  have long: "extractVideoId
                (''https://www.'' @ ''youtube.com/watch?v='' @ ''dQw4w9WgXcQ_EXTRA'' @ ''&t=1'') =
              Some ''dQw4w9WgXcQ_EXTRA''"
    by (rule extractVideoId_after_marker[where rest = "[]", THEN conjunct1, rule_format])
       (simp add: url_markers_def delimiters_def usable_marker_def All_less_Suc2)
  have second: "extractVideoId
                  (''https://youtu.be/?u='' @ ''youtube.com/embed/'' @ ''XYZ'' @ []) =
                Some ''XYZ''"
    by (rule extractVideoId_after_marker[where rest = "[]", THEN conjunct1, rule_format])
       (simp add: url_markers_def delimiters_def usable_marker_def All_less_Suc2)
  have none: "extractVideoId (''https://'' @ ''youtu.be/'' @ []) = None"
    by (rule extractVideoId_after_marker[where ident = "[]" and tail = "[]",
          THEN conjunct2, rule_format])
       (simp add: url_markers_def delimiters_def usable_marker_def All_less_Suc2)
  from short long second none show ?thesis
    by simp
qed

text \<open>
  Claim C10 as stated fails where a marker is followed by no such character: the result is
  \<open>null\<close>, not the empty run, and a later marker may match instead.
\<close>

theorem extractVideoId_marker_counterexample:
  "extractVideoId ''https://youtu.be/'' = None \<and>
   extractVideoId ''https://youtu.be/?u=youtube.com/embed/XYZ'' = Some ''XYZ'' \<and>
   id_run ''?u=youtube.com/embed/XYZ'' = []"
  by (simp add: extractVideoId_def markers_def id_run_def is_delim_def match_bare_def)

lemma processVideo_invalid_url:
  assumes "extractVideoId url = None"
  shows "processVideo e url now w = (Returned (Failure invalidUrlMessage), w)"
  using assms by (simp add: processVideo_def processVideo_try_def errorMessage_def)

text \<open>
  Claim C9. \<open>extractVideoId\<close> maps the long-form watch URL, the short link and the
  bare string of the specification's examples to the identifier \<open>dQw4w9WgXcQ\<close>, and
  maps \<open>not a url\<close> to no identifier. It accepts embed URLs: where the embed marker is the
  first marker followed by a character other than a delimiter, and in particular behind
  \<open>https://www.\<close>, the result is the run of characters behind the marker, up to the first
  delimiter or to the end. For every input from which no identifier is extracted,
  \<open>processVideo\<close> returns the failure with the invalid-URL message, the state untouched.
\<close>

theorem extractVideoId_examples:
  "extractVideoId ''https://www.youtube.com/watch?v=dQw4w9WgXcQ'' = Some ''dQw4w9WgXcQ'' \<and>
   extractVideoId ''https://youtu.be/dQw4w9WgXcQ'' = Some ''dQw4w9WgXcQ'' \<and>
   extractVideoId ''dQw4w9WgXcQ'' = Some ''dQw4w9WgXcQ'' \<and>
   extractVideoId ''https://www.youtube.com/embed/dQw4w9WgXcQ'' = Some ''dQw4w9WgXcQ'' \<and>
   extractVideoId ''not a url'' = None \<and>
   (ident \<noteq> [] \<and> set ident \<inter> delimiters = {} \<and> (tail = [] \<or> hd tail \<in> delimiters) \<and>
    (\<forall>k<length pre. \<forall>m'\<in>url_markers. \<not> usable_marker (pre @ ''youtube.com/embed/'' @ ident @ tail) k m')
      \<longrightarrow> extractVideoId (pre @ ''youtube.com/embed/'' @ ident @ tail) = Some ident) \<and>
   (ident \<noteq> [] \<and> set ident \<inter> delimiters = {} \<and> (tail = [] \<or> hd tail \<in> delimiters)
      \<longrightarrow> extractVideoId (''https://www.youtube.com/embed/'' @ ident @ tail) = Some ident) \<and>
   (extractVideoId url = None \<longrightarrow>
      processVideo e url now w =
        (Returned (Failure ''Invalid YouTube URL. Please enter a valid YouTube link.''), w))"
proof -
  have "extractVideoId ''https://www.youtube.com/watch?v=dQw4w9WgXcQ'' = Some ''dQw4w9WgXcQ''"
    by (simp add: extractVideoId_def markers_def id_run_def is_delim_def)
  moreover have "extractVideoId ''https://youtu.be/dQw4w9WgXcQ'' = Some ''dQw4w9WgXcQ''"
    by (simp add: extractVideoId_def markers_def id_run_def is_delim_def)
  moreover have "extractVideoId ''dQw4w9WgXcQ'' = Some ''dQw4w9WgXcQ''"
    by (simp add: extractVideoId_def markers_def id_run_def is_delim_def match_bare_def
          is_id_char_def)
  moreover have "extractVideoId ''https://www.youtube.com/embed/dQw4w9WgXcQ'' = Some ''dQw4w9WgXcQ''"
    by (simp add: extractVideoId_def markers_def id_run_def is_delim_def)
  moreover have "extractVideoId ''not a url'' = None"
    by (simp add: extractVideoId_def markers_def id_run_def is_delim_def match_bare_def)
  moreover have embed: "extractVideoId (pre @ ''youtube.com/embed/'' @ ident @ tail) = Some ident"
    if "ident \<noteq> []" and "set ident \<inter> delimiters = {}" and "tail = [] \<or> hd tail \<in> delimiters"
      and "\<forall>k<length pre. \<forall>m'\<in>url_markers. \<not> usable_marker (pre @ ''youtube.com/embed/'' @ ident @ tail) k m'"
    for pre
    using that by (intro extractVideoId_first_usable) (simp_all add: url_markers_def)
  moreover have "extractVideoId (''https://www.youtube.com/embed/'' @ ident @ tail) = Some ident"
    if "ident \<noteq> []" and "set ident \<inter> delimiters = {}" and "tail = [] \<or> hd tail \<in> delimiters"
  proof -
    have "\<forall>k<length ''https://www.''. \<forall>m'\<in>url_markers.
            \<not> usable_marker (''https://www.'' @ ''youtube.com/embed/'' @ ident @ tail) k m'"
      by (simp add: url_markers_def usable_marker_def All_less_Suc2)
    from embed[OF that this] show ?thesis
      by simp
  qed
  moreover have "extractVideoId url = None \<longrightarrow>
      processVideo e url now w =
        (Returned (Failure ''Invalid YouTube URL. Please enter a valid YouTube link.''), w)"
    using processVideo_invalid_url[of url e now w] by (simp add: invalidUrlMessage_def)
  ultimately show ?thesis by blast
qed

theorem extractVideoId_examples_witness:
  "extractVideoId ''https://www.youtube.com/embed/dQw4w9WgXcQ?start=30'' = Some ''dQw4w9WgXcQ'' \<and>
   extractVideoId ''http://youtube.com/embed/abc#t'' = Some ''abc'' \<and>
   extractVideoId ''not a url'' = None \<and>
   processVideo failing_env ''not a url'' 0 world0 =
     (Returned (Failure ''Invalid YouTube URL. Please enter a valid YouTube link.''), world0)"
proof -
  note ex = extractVideoId_examples[of "''dQw4w9WgXcQ''" "''?start=30''" "''http://''"
      "''not a url''" failing_env 0 world0]
  note ex2 = extractVideoId_examples[of "''abc''" "''#t''" "''http://''"
      "''not a url''" failing_env 0 world0]
  have query: "extractVideoId (''https://www.youtube.com/embed/'' @ ''dQw4w9WgXcQ'' @ ''?start=30'') =
                 Some ''dQw4w9WgXcQ''"
    using ex by (simp add: delimiters_def)
  have plain: "extractVideoId (''http://'' @ ''youtube.com/embed/'' @ ''abc'' @ ''#t'') = Some ''abc''"
    using ex2 by (simp add: delimiters_def url_markers_def usable_marker_def All_less_Suc2)
  from ex have none: "extractVideoId ''not a url'' = None"
    by (elim conjE)
  from ex have "extractVideoId ''not a url'' = None \<longrightarrow>
      processVideo failing_env ''not a url'' 0 world0 =
        (Returned (Failure ''Invalid YouTube URL. Please enter a valid YouTube link.''), world0)"
    by (elim conjE)
  with none query plain show ?thesis by simp
qed

section \<open>Properties of \<open>processVideo\<close>\<close>

lemma processVideo_cases:
  "processVideo e url now w =
     (case processVideo_try e url now w of
        (Inr data, w') \<Rightarrow> (Returned (Success data), w')
      | (Inl (Error msg), w') \<Rightarrow> (Returned (Failure msg), w')
      | (Inl NonError, w') \<Rightarrow> (Returned (Failure ''An unknown error occurred''), w'))"
  by (simp add: processVideo_def errorMessage_def split: prod.splits sum.splits thrown.splits)

lemma getCachedTranscript_miss:
  assumes "cache w vid = None"
  shows "getCachedTranscript e vid now w =
           (case generateTranscriptWorker e vid w of
              (Inl err, w') \<Rightarrow> (Inl err, w')
            | (Inr data, w') \<Rightarrow> (Inr data, w'\<lparr>cache := (cache w')(vid \<mapsto> (data, now))\<rparr>))"
  using assms by (simp add: getCachedTranscript_def unstable_cache_def)

lemma worker_fetch_throws:
  assumes "captionSource e vid (fetches w) = FetchThrows err"
  shows "generateTranscriptWorker e vid w = (Inl err, w\<lparr>fetches := Suc (fetches w)\<rparr>)"
  using assms by (simp add: generateTranscriptWorker_def)

lemma extractVideoId_nonempty:
  assumes "extractVideoId url = Some vid"
  shows "vid \<noteq> []"
proof -
  have group1: "g \<noteq> []" if "match_at ms s = Some g" for ms s g
    using that by (induction ms) (auto split: if_splits)
  have group2: "g \<noteq> []" if "match_url s = Some g" for s g
    using that by (induction s) (auto split: option.splits dest: group1)
  have group3: "g \<noteq> []" if "match_bare s = Some g" for s g
    using that by (auto simp: match_bare_def split: if_splits)
  from assms show ?thesis
    by (auto simp: extractVideoId_def split: option.splits dest: group2 group3)
qed

text \<open>
  Claim C4. For every input string, every behaviour of the caption source and of the model,
  every time and every state, \<open>processVideo\<close> ends by returning, never by raising,
  and what it returns is a success carrying a timeline or a failure carrying a message. An
  input with no identifier gives the invalid-URL message; a fetch that rejects with an
  \<open>Error\<close> gives that error's message; a fetch that rejects with anything else gives
  the fixed message for unknown errors.
\<close>

theorem processVideo_never_raises:
  "\<exists>r w'. processVideo e url now w = (Returned r, w') \<and>
          ((\<exists>data. r = Success data) \<or> (\<exists>msg. r = Failure msg)) \<and>
          (extractVideoId url = None \<longrightarrow> r = Failure invalidUrlMessage) \<and>
          (\<forall>vid. extractVideoId url = Some vid \<and> cache w vid = None \<longrightarrow>
             (\<forall>msg. captionSource e vid (fetches w) = FetchThrows (Error msg) \<longrightarrow> r = Failure msg) \<and>
             (captionSource e vid (fetches w) = FetchThrows NonError \<longrightarrow>
                r = Failure ''An unknown error occurred''))"
proof -
  obtain out w' where tried: "processVideo_try e url now w = (out, w')"
    by (cases "processVideo_try e url now w")
  define r where "r = (case out of Inr data \<Rightarrow> Success data | Inl err \<Rightarrow> Failure (errorMessage err))"
  have run: "processVideo e url now w = (Returned r, w')"
    using tried by (simp add: processVideo_def r_def split: sum.splits)
  have shape: "(\<exists>data. r = Success data) \<or> (\<exists>msg. r = Failure msg)"
    by (cases r) auto
  have invalid: "r = Failure invalidUrlMessage" if "extractVideoId url = None"
    using processVideo_invalid_url[OF that, of e now w] run by simp
  have thrown: "r = Failure (errorMessage err)"
    if "extractVideoId url = Some vid" and "cache w vid = None"
      and "captionSource e vid (fetches w) = FetchThrows err" for vid err
  proof -
    have "processVideo_try e url now w = (Inl err, w\<lparr>fetches := Suc (fetches w)\<rparr>)"
      using that extractVideoId_nonempty[OF that(1)]
      by (simp add: processVideo_try_def getCachedTranscript_miss worker_fetch_throws)
    with tried show ?thesis by (auto simp: r_def)
  qed
  show ?thesis
  proof (intro exI[of _ r] exI[of _ w'] conjI allI impI)
    show "processVideo e url now w = (Returned r, w')" by (rule run)
    show "(\<exists>data. r = Success data) \<or> (\<exists>msg. r = Failure msg)" by (rule shape)
    show "r = Failure invalidUrlMessage" if "extractVideoId url = None"
      using that by (rule invalid)
    show "r = Failure msg"
      if "extractVideoId url = Some vid \<and> cache w vid = None"
        and "captionSource e vid (fetches w) = FetchThrows (Error msg)" for vid msg
      using thrown[of vid "Error msg"] that by (simp add: errorMessage_def)
    show "r = Failure ''An unknown error occurred''"
      if "extractVideoId url = Some vid \<and> cache w vid = None"
        and "captionSource e vid (fetches w) = FetchThrows NonError" for vid
      using thrown[of vid NonError] that by (simp add: errorMessage_def)
  qed
qed

lemma extractVideoId_bare_example: "extractVideoId ''dQw4w9WgXcQ'' = Some ''dQw4w9WgXcQ''"
  by (simp add: extractVideoId_def markers_def id_run_def is_delim_def match_bare_def
        is_id_char_def)

theorem processVideo_never_raises_witness:
  "fst (processVideo rejecting_env ''dQw4w9WgXcQ'' 0 world0) =
     Returned (Failure ''An unknown error occurred'')"
proof -
  from processVideo_never_raises[of rejecting_env "''dQw4w9WgXcQ''" 0 world0]
  obtain r w' where
    run: "processVideo rejecting_env ''dQw4w9WgXcQ'' 0 world0 = (Returned r, w')" and
    unknown: "\<forall>vid. extractVideoId ''dQw4w9WgXcQ'' = Some vid \<and> cache world0 vid = None \<longrightarrow>
             (\<forall>msg. captionSource rejecting_env vid (fetches world0) = FetchThrows (Error msg) \<longrightarrow>
                r = Failure msg) \<and>
             (captionSource rejecting_env vid (fetches world0) = FetchThrows NonError \<longrightarrow>
                r = Failure ''An unknown error occurred'')"
    by blast
  have "cache world0 ''dQw4w9WgXcQ'' = None"
    and "captionSource rejecting_env ''dQw4w9WgXcQ'' (fetches world0) = FetchThrows NonError"
    by (simp_all add: world0_def rejecting_env_def)
  with unknown extractVideoId_bare_example have "r = Failure ''An unknown error occurred''"
    by blast
  with run show ?thesis by simp
qed

text \<open>
  A track with segments of which the filter keeps none: the emptiness check of line 32 has
  passed, the loop has nothing to translate, and the worker returns the empty timeline.
\<close>

lemma worker_nothing_kept:
  assumes "captionSource e vid (fetches w) = Segments segments"
      and "segments \<noteq> []"
      and "filter keep_segment segments = []"
  shows "generateTranscriptWorker e vid w = (Inr [], w\<lparr>fetches := Suc (fetches w)\<rparr>)"
  using assms
  by (simp add: generateTranscriptWorker_def normalize_segments_def translate_loop.simps)

text \<open>
  Claim C6 asks for a failure with an empty-transcript message when a track yields no usable
  segment after filtering. For a track whose only segment has a snippet without text, the code
  returns a success with an empty timeline, and caches it.
\<close>

theorem processVideo_textless_track:
  "processVideo textless_env ''dQw4w9WgXcQ'' 0 world0 =
     (Returned (Success []),
      \<lparr> cache = [''dQw4w9WgXcQ'' \<mapsto> ([], 0)], fetches = 1, calls = 0, sleeps = [] \<rparr>)"
proof -
  have "generateTranscriptWorker textless_env ''dQw4w9WgXcQ'' world0 =
          (Inr [], world0\<lparr>fetches := Suc (fetches world0)\<rparr>)"
    by (rule worker_nothing_kept[where segments = "[textless_segment]"])
       (simp_all add: textless_env_def keep_segment_def textless_segment_def read_field_def
          optional_text_def)
  then show ?thesis
    using extractVideoId_bare_example
    by (simp add: processVideo_def processVideo_try_def getCachedTranscript_miss world0_def)
qed

text \<open>
  Claim C8. After a call of \<open>processVideo\<close> that has returned a timeline for an
  identifier, the cache holds that timeline under the identifier, inserted at the time of the
  call or, when the call was itself served from the cache, earlier and still live; and every
  call for the same identifier (from whatever URL) at a time within \<open>revalidate\<close>
  seconds (24 hours) of the insertion returns the same output and leaves the state as it
  was: no caption fetch and no model request is made.
\<close>

theorem processVideo_second_call_cached:
  assumes "extractVideoId url1 = Some vid" and "extractVideoId url2 = Some vid"
      and "processVideo e url1 t1 w = (Returned (Success data), w1)"
  shows "\<exists>inserted.
           cache w1 vid = Some (data, inserted) \<and>
           (inserted = t1 \<or> (w1 = w \<and> t1 < inserted + revalidate)) \<and>
           (\<forall>t2. t2 < inserted + revalidate \<longrightarrow>
                 processVideo e url2 t2 w1 = (Returned (Success data), w1))"
proof -
  have vid: "vid \<noteq> []"
    using assms(1) by (rule extractVideoId_nonempty)
  have first: "getCachedTranscript e vid t1 w = (Inr data, w1)"
    using assms(1,3) vid
    by (auto simp: processVideo_def processVideo_try_def split: prod.splits sum.splits)
  have hit: "processVideo e url2 t2 w1 = (Returned (Success data), w1)"
    if "cache w1 vid = Some (data, inserted)" and "t2 < inserted + revalidate" for inserted t2
    using that assms(2) vid
    by (simp add: processVideo_def processVideo_try_def getCachedTranscript_def
          unstable_cache_def)
  have "\<exists>inserted. cache w1 vid = Some (data, inserted) \<and>
          (inserted = t1 \<or> (w1 = w \<and> t1 < inserted + revalidate))"
    using first
    by (auto simp: getCachedTranscript_def unstable_cache_def Let_def
             split: option.splits prod.splits sum.splits if_splits)
  then obtain inserted where
    entry: "cache w1 vid = Some (data, inserted)" and
    origin: "inserted = t1 \<or> (w1 = w \<and> t1 < inserted + revalidate)"
    by blast
  from entry origin hit[OF entry] show ?thesis
    by blast
qed

text \<open>A first call, on an empty cache.\<close>

lemma example_run:
  "processVideo short_env ''https://youtu.be/dQw4w9WgXcQ'' 100 world0 =
     (Returned (Success example_translation), cached_world)"
proof -
  have n: "normalize_segments example_segments = Some example_chunk"
    by (simp add: normalize_segments_eq_reference example_segments_def textless_segment_def
          caption_def or_zero_def to_double_def parseInt_examples example_chunk_def)
  have t: "translateChunk short_env example_chunk 0 (world0\<lparr>fetches := Suc (fetches world0)\<rparr>) =
             (example_translation, world0\<lparr>fetches := 1, calls := 1\<rparr>)"
    by (simp add: translateChunk.simps short_env_def short_answer_def try_translate_def
          reconcile_def example_chunk_def enumerate_eq_zip element_at_def text_or_original_def
          world0_def example_translation_def)
  have s: "slice example_chunk 0 chunkSize = example_chunk" and len: "length example_chunk = 3"
    by (simp_all add: slice_def chunkSize_def example_chunk_def)
  have "translate_loop short_env example_chunk 0 [] (world0\<lparr>fetches := Suc (fetches world0)\<rparr>) =
          translate_loop short_env example_chunk chunkSize example_translation
            (world0\<lparr>fetches := 1, calls := 1\<rparr>)"
    by (subst translate_loop.simps) (simp add: s t len)
  also have "\<dots> = (example_translation, world0\<lparr>fetches := 1, calls := 1\<rparr>)"
    by (subst translate_loop.simps) (simp add: len chunkSize_def)
  finally have l:
    "translate_loop short_env example_chunk 0 [] (world0\<lparr>fetches := Suc (fetches world0)\<rparr>) =
       (example_translation, world0\<lparr>fetches := 1, calls := 1\<rparr>)" .
  have w: "generateTranscriptWorker short_env ''dQw4w9WgXcQ'' world0 =
             (Inr example_translation, world0\<lparr>fetches := 1, calls := 1\<rparr>)"
  proof -
    have "captionSource short_env ''dQw4w9WgXcQ'' (fetches world0) = Segments example_segments"
      by (simp add: short_env_def)
    moreover have "length example_segments \<noteq> 0"
      by (simp add: example_segments_def)
    ultimately show ?thesis
      by (simp add: generateTranscriptWorker_def n l)
  qed
  have x: "extractVideoId ''https://youtu.be/dQw4w9WgXcQ'' = Some ''dQw4w9WgXcQ''"
    by (simp add: extractVideoId_def markers_def id_run_def is_delim_def)
  show ?thesis
    by (simp add: processVideo_def processVideo_try_def x getCachedTranscript_miss world0_def w[unfolded world0_def]
          cached_world_def)
qed

theorem processVideo_second_call_cached_witness:
  "processVideo short_env ''https://youtu.be/dQw4w9WgXcQ'' 100 world0 =
     (Returned (Success example_translation), cached_world) \<and>
   cache cached_world ''dQw4w9WgXcQ'' = Some (example_translation, 100) \<and>
   processVideo short_env ''dQw4w9WgXcQ'' 86499 cached_world =
     (Returned (Success example_translation), cached_world)"
proof -
  have x1: "extractVideoId ''https://youtu.be/dQw4w9WgXcQ'' = Some ''dQw4w9WgXcQ''"
    by (simp add: extractVideoId_def markers_def id_run_def is_delim_def)
  from processVideo_second_call_cached[OF x1 extractVideoId_bare_example example_run]
  obtain inserted where
    entry: "cache cached_world ''dQw4w9WgXcQ'' = Some (example_translation, inserted)" and
    served: "\<forall>t2. t2 < inserted + revalidate \<longrightarrow>
               processVideo short_env ''dQw4w9WgXcQ'' t2 cached_world =
                 (Returned (Success example_translation), cached_world)"
    by blast
  from entry have "inserted = 100"
    by (simp add: cached_world_def)
  with served have "processVideo short_env ''dQw4w9WgXcQ'' 86499 cached_world =
                 (Returned (Success example_translation), cached_world)"
    by (simp add: revalidate_def)
  with example_run entry \<open>inserted = 100\<close> show ?thesis
    by simp
qed

end
